theory Spec2Isabelle
  imports Main "HOL-Library.Word"
begin

unbundle bit_operations_syntax

section \<open>Machine state (Chip8.h)\<close>

type_synonym u8 = "8 word"
type_synonym u16 = "16 word"
type_synonym u32 = "32 word"

text \<open>
  The members of \<^verbatim>\<open>class Chip8\<close>, in the order of the header. A C++ array is a list;
  its declared size is recorded by \<open>well_sized\<close> below. The random engine is left out:
  only \<^verbatim>\<open>OP_Cxkk\<close> reads it.
\<close>

record chip8 =
  registers :: "u8 list"
  memory :: "u8 list"
  index :: u16
  pc :: u16
  stack :: "u16 list"
  sp :: u8
  delayTimer :: u8
  soundTimer :: u8
  keypad :: "u8 list"
  video :: "u32 list"
  opcode :: u16

definition START_ADDRESS :: nat where
  "START_ADDRESS = 0x200"

text \<open>
  \<^verbatim>\<open>uint8_t registers[16]\<close>, \<^verbatim>\<open>uint8_t memory[4096]\<close>, \<^verbatim>\<open>uint16_t stack[16]\<close>,
  \<^verbatim>\<open>uint8_t keypad[16]\<close>, \<^verbatim>\<open>uint32_t video[64*32]\<close>.
\<close>

definition well_sized :: "chip8 \<Rightarrow> bool" where
  "well_sized s \<longleftrightarrow>
     length (registers s) = 16 \<and> length (memory s) = 4096 \<and> length (stack s) = 16 \<and>
     length (keypad s) = 16 \<and> length (video s) = 64 * 32"

text \<open>
  Operand fields of the instruction word, as every handler extracts them:
  \<^verbatim>\<open>uint8_t Vx = (opcode & 0x0F00u) >> 8u\<close>, \<^verbatim>\<open>uint8_t Vy = (opcode & 0x00F0u) >> 4u\<close>.
  Both are array indices, hence read as \<open>nat\<close>.
\<close>

definition Vx_of :: "u16 \<Rightarrow> nat" where
  "Vx_of opc = unat (ucast (drop_bit 8 (opc AND 0x0F00)) :: u8)"

definition Vy_of :: "u16 \<Rightarrow> nat" where
  "Vy_of opc = unat (ucast (drop_bit 4 (opc AND 0x00F0)) :: u8)"

section \<open>Array accesses and loops\<close>

text \<open>
  C++ gives no meaning to an access outside an array. The source checks no index, so the
  model makes the check: an access at an index within the array behaves as the list
  operation, and any other access ends the handler with a \<open>fault\<close> naming the array
  and the index. A fault is not a value the program returns or reports to its caller
  (every handler and \<^verbatim>\<open>LoadROM\<close> return \<^verbatim>\<open>void\<close>); it marks the point where
  the execution leaves the behaviour the language defines.
\<close>

datatype arr = Memory | Stack | Video

datatype fault = OutOfBounds arr nat

definition load_at :: "arr \<Rightarrow> 'a list \<Rightarrow> nat \<Rightarrow> fault + 'a" where
  "load_at a xs i = (if i < length xs then Inr (xs ! i) else Inl (OutOfBounds a i))"

definition store_at :: "arr \<Rightarrow> 'a list \<Rightarrow> nat \<Rightarrow> 'a \<Rightarrow> fault + 'a list" where
  "store_at a xs i v = (if i < length xs then Inr (xs[i := v]) else Inl (OutOfBounds a i))"

text \<open>
  \<^verbatim>\<open>for (i = lo; i < n; ++i) body\<close>, with the state threaded through the iterations;
  a fault in the body ends the loop.
\<close>

function for_loop :: "nat \<Rightarrow> nat \<Rightarrow> (nat \<Rightarrow> 's \<Rightarrow> fault + 's) \<Rightarrow> 's \<Rightarrow> fault + 's" where
  "for_loop i n body s =
     (if i < n
      then (case body i s of Inl e \<Rightarrow> Inl e | Inr s' \<Rightarrow> for_loop (Suc i) n body s')
      else Inr s)"
  by pat_completeness auto
termination
  by (relation "measure (\<lambda>(i, n, body, s). n - i)") auto

declare for_loop.simps [simp del]

section \<open>Loading a program (Chip8.cpp)\<close>

text \<open>
  \<^verbatim>\<open>LoadROM\<close>. The file is the argument: \<open>None\<close> when it cannot be opened (the source
  then does nothing), otherwise its bytes, which the source stages in \<^verbatim>\<open>buffer\<close> and
  copies with \<^verbatim>\<open>memory[START_ADDRESS + i] = buffer[i]\<close> for every \<^verbatim>\<open>i < size\<close>.
  There is no comparison of \<^verbatim>\<open>size\<close> with the size of \<^verbatim>\<open>memory\<close>.
\<close>

definition LoadROM_body :: "u8 list \<Rightarrow> nat \<Rightarrow> chip8 \<Rightarrow> fault + chip8" where
  "LoadROM_body buffer i s =
     (case store_at Memory (memory s) (START_ADDRESS + i) (buffer ! i) of
        Inl e \<Rightarrow> Inl e
      | Inr m \<Rightarrow> Inr (s\<lparr>memory := m\<rparr>))"

definition LoadROM :: "u8 list option \<Rightarrow> chip8 \<Rightarrow> fault + chip8" where
  "LoadROM file s =
     (case file of
        None \<Rightarrow> Inr s
      | Some buffer \<Rightarrow> for_loop 0 (length buffer) (LoadROM_body buffer) s)"

section \<open>Opcode handlers (Chip8.cpp)\<close>

text \<open>\<^verbatim>\<open>OP_00EE\<close>: \<^verbatim>\<open>--sp; pc = stack[sp];\<close> with \<^verbatim>\<open>sp\<close> an 8-bit counter.\<close>

definition OP_00EE :: "chip8 \<Rightarrow> fault + chip8" where
  "OP_00EE s =
     (let sp' = sp s - 1
      in case load_at Stack (stack s) (unat sp') of
           Inl e \<Rightarrow> Inl e
         | Inr a \<Rightarrow> Inr (s\<lparr>sp := sp', pc := a\<rparr>))"

text \<open>\<^verbatim>\<open>OP_2nnn\<close>: \<^verbatim>\<open>stack[sp] = pc; ++sp; pc = address;\<close>\<close>

definition OP_2nnn :: "chip8 \<Rightarrow> fault + chip8" where
  "OP_2nnn s =
     (let address = opcode s AND 0x0FFF
      in case store_at Stack (stack s) (unat (sp s)) (pc s) of
           Inl e \<Rightarrow> Inl e
         | Inr st \<Rightarrow> Inr (s\<lparr>stack := st, sp := sp s + 1, pc := address\<rparr>))"

text \<open>\<^verbatim>\<open>OP_3xkk\<close>: skip next instruction if \<open>Vx = kk\<close>; the immediate is \<^verbatim>\<open>opcode & 0x00FFu\<close>.\<close>

definition OP_3xkk :: "chip8 \<Rightarrow> chip8" where
  "OP_3xkk s =
     (let Vx = Vx_of (opcode s);
          byte = (ucast (opcode s AND 0x00FF) :: u8)
      in if registers s ! Vx = byte then s\<lparr>pc := pc s + 2\<rparr> else s)"

text \<open>\<^verbatim>\<open>OP_4xkk\<close>: skip next instruction if \<open>Vx \<noteq> kk\<close>; the source masks with \<^verbatim>\<open>0x00Fu\<close>.\<close>

definition OP_4xkk :: "chip8 \<Rightarrow> chip8" where
  "OP_4xkk s =
     (let Vx = Vx_of (opcode s);
          byte = (ucast (opcode s AND 0x00F) :: u8)
      in if registers s ! Vx \<noteq> byte then s\<lparr>pc := pc s + 2\<rparr> else s)"

text \<open>
  \<^verbatim>\<open>OP_8xy4\<close>. Line 188 of the source reads
  \<^verbatim>\<open>uint16_t sum - registers[Vx] + registers[Vy];\<close>, which is not a C++ statement; the
  model takes it as the initialisation \<^verbatim>\<open>uint16_t sum = registers[Vx] + registers[Vy];\<close>
  that the handler's comment describes. The flag is stored first, the low byte of the
  sum last.
\<close>

definition OP_8xy4 :: "chip8 \<Rightarrow> chip8" where
  "OP_8xy4 s =
     (let Vx = Vx_of (opcode s);
          Vy = Vy_of (opcode s);
          sum = (ucast (registers s ! Vx) + ucast (registers s ! Vy) :: u16);
          regs = (if sum > 255 then (registers s)[0xF := 1] else (registers s)[0xF := 0])
      in s\<lparr>registers := regs[Vx := ucast (sum AND 0xFF)]\<rparr>)"

text \<open>
  \<^verbatim>\<open>OP_8xy5\<close>: the flag is stored first; \<^verbatim>\<open>registers[Vx] -= registers[Vy]\<close> then reads
  both registers again.
\<close>

definition OP_8xy5 :: "chip8 \<Rightarrow> chip8" where
  "OP_8xy5 s =
     (let Vx = Vx_of (opcode s);
          Vy = Vy_of (opcode s);
          regs = (if registers s ! Vx > registers s ! Vy
                  then (registers s)[0xF := 1] else (registers s)[0xF := 0])
      in s\<lparr>registers := regs[Vx := regs ! Vx - regs ! Vy]\<rparr>)"

text \<open>
  Modelled from the spec: \<^verbatim>\<open>VIDEO_WIDTH\<close> and \<^verbatim>\<open>VIDEO_HEIGHT\<close> are used by
  \<^verbatim>\<open>OP_Dxyn\<close> and declared nowhere in the source; the spec gives the display as a 64 by 32
  grid, and the header declares \<^verbatim>\<open>video[64*32]\<close>.
\<close>

definition VIDEO_WIDTH :: nat where
  "VIDEO_WIDTH = 64"

definition VIDEO_HEIGHT :: nat where
  "VIDEO_HEIGHT = 32"

text \<open>
  \<^verbatim>\<open>OP_Dxyn\<close>, innermost statement first. Line 324 of the source names \<^verbatim>\<open>xPod\<close>, which
  is declared nowhere; the model reads it as \<^verbatim>\<open>xPos\<close>. The display cell is read and
  written only when the sprite bit is on, and the model checks the index there.
\<close>

definition draw_pixel :: "u8 \<Rightarrow> nat \<Rightarrow> nat \<Rightarrow> nat \<Rightarrow> nat \<Rightarrow> chip8 \<Rightarrow> fault + chip8" where
  "draw_pixel spriteByte xPos yPos row col s =
     (let spritePixel = spriteByte AND drop_bit col 0x80;
          k = (yPos + row) * VIDEO_WIDTH + (xPos + col)
      in if spritePixel \<noteq> 0
         then (case load_at Video (video s) k of
                 Inl e \<Rightarrow> Inl e
               | Inr screenPixel \<Rightarrow>
                   Inr (s\<lparr>registers := (if screenPixel = 0xFFFFFFFF
                                         then (registers s)[0xF := 1] else registers s),
                           video := (video s)[k := screenPixel XOR 0xFFFFFFFF]\<rparr>))
         else Inr s)"

definition draw_row :: "nat \<Rightarrow> nat \<Rightarrow> nat \<Rightarrow> chip8 \<Rightarrow> fault + chip8" where
  "draw_row xPos yPos row s =
     (case load_at Memory (memory s) (unat (index s) + row) of
        Inl e \<Rightarrow> Inl e
      | Inr spriteByte \<Rightarrow> for_loop 0 8 (draw_pixel spriteByte xPos yPos row) s)"

definition OP_Dxyn :: "chip8 \<Rightarrow> fault + chip8" where
  "OP_Dxyn s =
     (let Vx = Vx_of (opcode s);
          Vy = Vy_of (opcode s);
          height = unat (ucast (opcode s AND 0x000F) :: u8);
          xPos = unat (registers s ! Vx) mod VIDEO_WIDTH;
          yPos = unat (registers s ! Vy) mod VIDEO_HEIGHT
      in for_loop 0 height (draw_row xPos yPos) (s\<lparr>registers := (registers s)[0xF := 0]\<rparr>))"

text \<open>\<^verbatim>\<open>OP_Fx0A\<close>: the chain of sixteen tests, in the order of the source.\<close>

definition OP_Fx0A :: "chip8 \<Rightarrow> chip8" where
  "OP_Fx0A s =
     (let Vx = Vx_of (opcode s)
      in if keypad s ! 0 \<noteq> 0 then s\<lparr>registers := (registers s)[Vx := 0]\<rparr>
         else if keypad s ! 1 \<noteq> 0 then s\<lparr>registers := (registers s)[Vx := 1]\<rparr>
         else if keypad s ! 2 \<noteq> 0 then s\<lparr>registers := (registers s)[Vx := 2]\<rparr>
         else if keypad s ! 3 \<noteq> 0 then s\<lparr>registers := (registers s)[Vx := 3]\<rparr>
         else if keypad s ! 4 \<noteq> 0 then s\<lparr>registers := (registers s)[Vx := 4]\<rparr>
         else if keypad s ! 5 \<noteq> 0 then s\<lparr>registers := (registers s)[Vx := 5]\<rparr>
         else if keypad s ! 6 \<noteq> 0 then s\<lparr>registers := (registers s)[Vx := 6]\<rparr>
         else if keypad s ! 7 \<noteq> 0 then s\<lparr>registers := (registers s)[Vx := 7]\<rparr>
         else if keypad s ! 8 \<noteq> 0 then s\<lparr>registers := (registers s)[Vx := 8]\<rparr>
         else if keypad s ! 9 \<noteq> 0 then s\<lparr>registers := (registers s)[Vx := 9]\<rparr>
         else if keypad s ! 10 \<noteq> 0 then s\<lparr>registers := (registers s)[Vx := 10]\<rparr>
         else if keypad s ! 11 \<noteq> 0 then s\<lparr>registers := (registers s)[Vx := 11]\<rparr>
         else if keypad s ! 12 \<noteq> 0 then s\<lparr>registers := (registers s)[Vx := 12]\<rparr>
         else if keypad s ! 13 \<noteq> 0 then s\<lparr>registers := (registers s)[Vx := 13]\<rparr>
         else if keypad s ! 14 \<noteq> 0 then s\<lparr>registers := (registers s)[Vx := 14]\<rparr>
         else if keypad s ! 15 \<noteq> 0 then s\<lparr>registers := (registers s)[Vx := 15]\<rparr>
         else s\<lparr>pc := pc s - 2\<rparr>)"

text \<open>
  \<^verbatim>\<open>OP_Fx33\<close>: ones digit to \<^verbatim>\<open>memory[index + 2]\<close>, tens digit to
  \<^verbatim>\<open>memory[index + 1]\<close>, hundreds digit to \<^verbatim>\<open>memory[index]\<close>, in this order, with
  \<^verbatim>\<open>value /= 10\<close> between the stores (\<open>value0\<close>, \<open>value1\<close>, \<open>value2\<close> are the
  successive values of \<^verbatim>\<open>value\<close>); \<^verbatim>\<open>index + 2\<close> is computed in \<^verbatim>\<open>int\<close> and does
  not wrap at 16 bits.
\<close>

definition OP_Fx33 :: "chip8 \<Rightarrow> fault + chip8" where
  "OP_Fx33 s =
     (let Vx = Vx_of (opcode s);
          value0 = registers s ! Vx;
          I = unat (index s)
      in (case store_at Memory (memory s) (I + 2) (value0 mod 10) of
            Inl e \<Rightarrow> Inl e
          | Inr m1 \<Rightarrow>
              (let value1 = value0 div 10
               in (case store_at Memory m1 (I + 1) (value1 mod 10) of
                     Inl e \<Rightarrow> Inl e
                   | Inr m2 \<Rightarrow>
                       (let value2 = value1 div 10
                        in (case store_at Memory m2 I (value2 mod 10) of
                              Inl e \<Rightarrow> Inl e
                            | Inr m3 \<Rightarrow> Inr (s\<lparr>memory := m3\<rparr>)))))))"

text \<open>
  \<^verbatim>\<open>OP_Fx55\<close> and \<^verbatim>\<open>OP_Fx65\<close>: \<^verbatim>\<open>for (uint8_t i = 0; i <= Vx; ++i)\<close>. \<^verbatim>\<open>Vx\<close> is at
  most 15, so the 8-bit counter does not wrap and the loop runs for \<open>i < Vx + 1\<close>.
\<close>

definition OP_Fx55_body :: "nat \<Rightarrow> chip8 \<Rightarrow> fault + chip8" where
  "OP_Fx55_body i s =
     (case store_at Memory (memory s) (unat (index s) + i) (registers s ! i) of
        Inl e \<Rightarrow> Inl e
      | Inr m \<Rightarrow> Inr (s\<lparr>memory := m\<rparr>))"

definition OP_Fx55 :: "chip8 \<Rightarrow> fault + chip8" where
  "OP_Fx55 s = (let Vx = Vx_of (opcode s) in for_loop 0 (Suc Vx) OP_Fx55_body s)"

definition OP_Fx65_body :: "nat \<Rightarrow> chip8 \<Rightarrow> fault + chip8" where
  "OP_Fx65_body i s =
     (case load_at Memory (memory s) (unat (index s) + i) of
        Inl e \<Rightarrow> Inl e
      | Inr v \<Rightarrow> Inr (s\<lparr>registers := (registers s)[i := v]\<rparr>))"

definition OP_Fx65 :: "chip8 \<Rightarrow> fault + chip8" where
  "OP_Fx65 s = (let Vx = Vx_of (opcode s) in for_loop 0 (Suc Vx) OP_Fx65_body s)"

section \<open>A concrete machine\<close>

text \<open>
  The state the theorems are instantiated at: every array zero, as the header's
  value-initialisers leave them, the program counter at \<^verbatim>\<open>START_ADDRESS\<close>, and the
  instruction word given (the header gives \<^verbatim>\<open>opcode\<close> no initialiser). The built-in
  glyphs, which no handler below depends on, are not installed.
\<close>

definition blank :: "u16 \<Rightarrow> chip8" where
  "blank opc =
     \<lparr>registers = replicate 16 0, memory = replicate 4096 0, index = 0, pc = 0x200,
      stack = replicate 16 0, sp = 0, delayTimer = 0, soundTimer = 0,
      keypad = replicate 16 0, video = replicate (64 * 32) 0, opcode = opc\<rparr>"

text \<open>
  A machine about to draw: instruction \<open>0xD011\<close> (a sprite of one row at
  \<open>(V0, V1)\<close>) with \<open>V0 = 69\<close>, \<open>V1 = 35\<close>, \<open>index = 0x300\<close> and the sprite
  byte \<open>0xF0\<close> there; and the same machine after that draw, with the four cells
  \<open>3 * 64 + 5 .. 3 * 64 + 8\<close> on.
\<close>

definition sprite_machine :: chip8 where
  "sprite_machine =
     (blank 0xD011)\<lparr>registers := (replicate 16 0)[0 := 69, 1 := 35], index := 0x300,
                     memory := (replicate 4096 0)[0x300 := 0xF0]\<rparr>"

definition sprite_machine_drawn :: chip8 where
  "sprite_machine_drawn =
     sprite_machine\<lparr>registers := (replicate 16 0)[0 := 69, 1 := 35, 15 := 0],
                     video := (replicate (64 * 32) 0)
                       [197 := 0xFFFFFFFF, 198 := 0xFFFFFFFF, 199 := 0xFFFFFFFF, 200 := 0xFFFFFFFF]\<rparr>"

section \<open>Quantities the statements and proofs speak of\<close>

text \<open>
  The values \<^verbatim>\<open>OP_Dxyn\<close> computes before its loops: \<^verbatim>\<open>height\<close>, \<^verbatim>\<open>xPos\<close> and
  \<^verbatim>\<open>yPos\<close>.
\<close>

definition height_of :: "chip8 \<Rightarrow> nat" where
  "height_of s = unat (ucast (opcode s AND 0x000F) :: u8)"

definition xPos_of :: "chip8 \<Rightarrow> nat" where
  "xPos_of s = unat (registers s ! Vx_of (opcode s)) mod VIDEO_WIDTH"

definition yPos_of :: "chip8 \<Rightarrow> nat" where
  "yPos_of s = unat (registers s ! Vy_of (opcode s)) mod VIDEO_HEIGHT"

text \<open>
  Bit \<open>col\<close> (most significant first) of sprite row \<open>row\<close> is on; the index of the
  display cell that \<^verbatim>\<open>OP_Dxyn\<close> computes for it.
\<close>

definition lit :: "chip8 \<Rightarrow> nat \<Rightarrow> nat \<Rightarrow> bool" where
  "lit s row col \<longleftrightarrow> memory s ! (unat (index s) + row) AND drop_bit col 0x80 \<noteq> 0"

definition cell :: "nat \<Rightarrow> nat \<Rightarrow> nat \<Rightarrow> nat \<Rightarrow> nat" where
  "cell xPos yPos row col = (yPos + row) * VIDEO_WIDTH + (xPos + col)"

text \<open>
  The cells of the sprite bits that are on and that the loops have passed when they
  stand at row \<open>r\<close>, column \<open>c\<close>; a display with a set of cells inverted; the registers
  with the flag raised if one of these cells was fully on.
\<close>

definition drawn :: "chip8 \<Rightarrow> nat \<Rightarrow> nat \<Rightarrow> nat \<Rightarrow> nat \<Rightarrow> nat set" where
  "drawn s xPos yPos r c =
     {cell xPos yPos row col | row col.
        col < 8 \<and> lit s row col \<and> (row < r \<or> (row = r \<and> col < c))}"

definition toggled :: "nat set \<Rightarrow> u32 list \<Rightarrow> u32 list" where
  "toggled D v = map (\<lambda>k. if k \<in> D then v ! k XOR 0xFFFFFFFF else v ! k) [0..<length v]"

definition flagged :: "nat set \<Rightarrow> u32 list \<Rightarrow> u8 list \<Rightarrow> u8 list" where
  "flagged D v rg = (if \<exists>k\<in>D. k < length v \<and> v ! k = 0xFFFFFFFF then rg[15 := 1] else rg)"

definition painted :: "chip8 \<Rightarrow> nat set \<Rightarrow> chip8" where
  "painted s D =
     s\<lparr>registers := flagged D (video s) ((registers s)[15 := 0]), video := toggled D (video s)\<rparr>"

definition sprite_cells :: "chip8 \<Rightarrow> nat set" where
  "sprite_cells s = drawn s (xPos_of s) (yPos_of s) (height_of s) 0"

text \<open>Every sprite byte lies in the memory and every cell of a bit that is on lies in the display.\<close>

definition in_bounds :: "chip8 \<Rightarrow> bool" where
  "in_bounds s \<longleftrightarrow>
     (\<forall>r<height_of s. unat (index s) + r < length (memory s) \<and>
        (\<forall>c<8. lit s r c \<longrightarrow> cell (xPos_of s) (yPos_of s) r c < length (video s)))"

text \<open>
  What \<^verbatim>\<open>LoadROM\<close> has done to machine \<open>s\<close> after \<open>j\<close> iterations: only the memory
  differs, and there only the first \<open>j\<close> bytes from \<^verbatim>\<open>START_ADDRESS\<close> on.
\<close>

definition loaded :: "chip8 \<Rightarrow> u8 list \<Rightarrow> nat \<Rightarrow> chip8 \<Rightarrow> bool" where
  "loaded s buffer j t \<longleftrightarrow>
     t\<lparr>memory := memory s\<rparr> = s \<and> length (memory t) = length (memory s) \<and>
     (\<forall>i<j. memory t ! (START_ADDRESS + i) = buffer ! i) \<and>
     (\<forall>a. a < START_ADDRESS \<or> START_ADDRESS + j \<le> a \<longrightarrow> memory t ! a = memory s ! a)"

section \<open>Operand fields\<close>

lemma and_bound: "unat ((w::u16) AND m) \<le> unat m"
  by (rule word_and_le1 [THEN word_le_nat_alt [THEN iffD1]])

lemma Vx_of_less: "Vx_of opc < 16"
proof -
  have a: "unat (opc AND 0x0F00) \<le> 0xF00"
    using and_bound [of opc "0x0F00"] by simp
  have b: "unat (drop_bit 8 (opc AND 0x0F00)) = unat (opc AND 0x0F00) div 256"
    by (simp add: unat_drop_bit_eq drop_bit_eq_div unat_div)
  have "unat (drop_bit 8 (opc AND 0x0F00)) < 16"
    unfolding b using a by simp
  then show ?thesis
    unfolding Vx_of_def by (simp add: unsigned_ucast_eq take_bit_eq_mod)
qed

lemma Vy_of_less: "Vy_of opc < 16"
proof -
  have a: "unat (opc AND 0x00F0) \<le> 0xF0"
    using and_bound [of opc "0x00F0"] by simp
  have b: "unat (drop_bit 4 (opc AND 0x00F0)) = unat (opc AND 0x00F0) div 16"
    by (simp add: unat_drop_bit_eq drop_bit_eq_div unat_div)
  have "unat (drop_bit 4 (opc AND 0x00F0)) < 16"
    unfolding b using a by simp
  then show ?thesis
    unfolding Vy_of_def by (simp add: unsigned_ucast_eq take_bit_eq_mod)
qed

lemma nibble_cases:
  assumes "k < (16::nat)"
  obtains "k = 0" | "k = 1" | "k = 2" | "k = 3" | "k = 4" | "k = 5" | "k = 6" | "k = 7"
    | "k = 8" | "k = 9" | "k = 10" | "k = 11" | "k = 12" | "k = 13" | "k = 14" | "k = 15"
  using assms by (auto simp: eval_nat_numeral less_Suc_eq)

section \<open>Byte arithmetic\<close>

lemma u8_less: "unat (a::u8) < 256"
  using unsigned_less [of a, where 'a=nat] by simp

lemma low_byte: "unat (ucast ((w::u16) AND 0xFF) :: u8) = unat w mod 256"
proof -
  have "w AND 0xFF = take_bit 8 w"
    by (simp add: take_bit_eq_mask mask_eq_exp_minus_1)
  then show ?thesis
    by (simp add: unsigned_ucast_eq unsigned_take_bit_eq take_bit_eq_mod unat_mod)
qed

lemma sum16: "unat (ucast (a::u8) + ucast (b::u8) :: u16) = unat a + unat b"
  using u8_less [of a] u8_less [of b]
  by (simp add: unat_word_ariths unsigned_ucast_eq take_bit_eq_mod)

section \<open>Loops\<close>

lemma for_loop_done: "n \<le> i \<Longrightarrow> for_loop i n body s = Inr s"
  by (simp add: for_loop.simps)

lemma for_loop_step:
  "i < n \<Longrightarrow>
   for_loop i n body s =
     (case body i s of Inl e \<Rightarrow> Inl e | Inr s' \<Rightarrow> for_loop (Suc i) n body s')"
  by (subst for_loop.simps) simp

text \<open>An invariant that every iteration keeps, without fault, holds when the loop ends.\<close>

lemma for_loop_total:
  assumes "i \<le> n" "P i s"
    and step: "\<And>j t. i \<le> j \<Longrightarrow> j < n \<Longrightarrow> P j t \<Longrightarrow> \<exists>t'. body j t = Inr t' \<and> P (Suc j) t'"
  shows "\<exists>t. for_loop i n body s = Inr t \<and> P n t"
  using assms
proof (induction i n body s rule: for_loop.induct)
  case (1 i n body s)
  show ?case
  proof (cases "i < n")
    case True
    from 1(4) [of i s] True 1(3) obtain t' where t': "body i s = Inr t'" "P (Suc i) t'"
      by auto
    have "\<exists>t. for_loop (Suc i) n body t' = Inr t \<and> P n t"
    proof (rule 1(1) [OF True t'(1)])
      show "Suc i \<le> n" using True by simp
      show "P (Suc i) t'" by (rule t'(2))
      show "\<And>j t. Suc i \<le> j \<Longrightarrow> j < n \<Longrightarrow> P j t \<Longrightarrow> \<exists>t'. body j t = Inr t' \<and> P (Suc j) t'"
        using 1(4) by simp
    qed
    then show ?thesis
      using True t'(1) by (simp add: for_loop_step)
  next
    case False
    with 1(2) have "i = n" by simp
    then show ?thesis using 1(3) by (simp add: for_loop_done)
  qed
qed

lemma for_loop_split:
  assumes "i \<le> k" "k \<le> n"
  shows "for_loop i n body s =
           (case for_loop i k body s of Inl e \<Rightarrow> Inl e | Inr t \<Rightarrow> for_loop k n body t)"
  using assms
proof (induction i k body s rule: for_loop.induct)
  case (1 i k body s)
  show ?case
  proof (cases "i < k")
    case True
    then have "i < n" using 1(3) by simp
    show ?thesis
    proof (cases "body i s")
      case (Inl e)
      then show ?thesis using True \<open>i < n\<close> by (simp add: for_loop_step)
    next
      case (Inr t')
      have "for_loop (Suc i) n body t' =
              (case for_loop (Suc i) k body t' of Inl e \<Rightarrow> Inl e | Inr t \<Rightarrow> for_loop k n body t)"
        using 1(1) [OF True Inr] True 1(3) by simp
      then show ?thesis using True \<open>i < n\<close> Inr by (simp add: for_loop_step)
    qed
  next
    case False
    with 1(2) have "i = k" by simp
    then show ?thesis by (simp add: for_loop_done)
  qed
qed

text \<open>The loop faults at the first iteration whose body faults.\<close>

lemma for_loop_fault:
  assumes "i \<le> k" "k < n" "P i s"
    and step: "\<And>j t. i \<le> j \<Longrightarrow> j < k \<Longrightarrow> P j t \<Longrightarrow> \<exists>t'. body j t = Inr t' \<and> P (Suc j) t'"
    and bad: "\<And>t. P k t \<Longrightarrow> body k t = Inl e"
  shows "for_loop i n body s = Inl e"
proof -
  obtain t where t: "for_loop i k body s = Inr t" "P k t"
    using for_loop_total [of i k P s body] assms(1,3) step by blast
  have "for_loop k n body t = Inl e"
    using assms(2) bad [OF t(2)] by (simp add: for_loop_step)
  then show ?thesis
    using for_loop_split [of i k n body s] assms(1,2) t(1) by simp
qed

text \<open>What a loop that ended without fault has kept.\<close>

lemma for_loop_partial:
  assumes "for_loop i n body s = Inr t" "i \<le> n" "P i s"
    and step: "\<And>j u u'. i \<le> j \<Longrightarrow> j < n \<Longrightarrow> P j u \<Longrightarrow> body j u = Inr u' \<Longrightarrow> P (Suc j) u'"
  shows "P n t"
  using assms
proof (induction i n body s rule: for_loop.induct)
  case (1 i n body s)
  show ?case
  proof (cases "i < n")
    case True
    from 1(2) True obtain s' where s': "body i s = Inr s'" "for_loop (Suc i) n body s' = Inr t"
      by (auto simp: for_loop_step split: sum.splits)
    show ?thesis
    proof (rule 1(1) [OF True s'(1) s'(2)])
      show "Suc i \<le> n" using True by simp
      show "P (Suc i) s'" using 1(5) [of i s s'] True 1(4) s'(1) by simp
      show "\<And>j u u'. Suc i \<le> j \<Longrightarrow> j < n \<Longrightarrow> P j u \<Longrightarrow> body j u = Inr u' \<Longrightarrow> P (Suc j) u'"
        using 1(5) by simp
    qed
  next
    case False
    with 1(3) have "i = n" by simp
    then show ?thesis using 1(2,4) by (simp add: for_loop_done)
  qed
qed

section \<open>Add and subtract with flag\<close>

text \<open>
  C2 (as amended). When \<open>x\<close> is not \<open>0xF\<close>, for every pair of values \<open>a\<close> in \<open>Vx\<close> and
  \<open>b\<close> in \<open>Vy\<close>, \<^verbatim>\<open>OP_8xy4\<close> leaves \<open>VF = 1\<close> if and only if \<open>a + b > 255\<close> (and
  \<open>VF = 0\<close> otherwise), and \<open>Vx = (a + b) mod 256\<close>.
\<close>

theorem OP_8xy4_carry:
  assumes "length (registers s) = 16" and "Vx_of (opcode s) \<noteq> 15"
  shows "(registers (OP_8xy4 s) ! 15 = 1 \<longleftrightarrow>
            unat (registers s ! Vx_of (opcode s)) + unat (registers s ! Vy_of (opcode s)) > 255) \<and>
         (registers (OP_8xy4 s) ! 15 = 0 \<longleftrightarrow>
            unat (registers s ! Vx_of (opcode s)) + unat (registers s ! Vy_of (opcode s)) \<le> 255) \<and>
         unat (registers (OP_8xy4 s) ! Vx_of (opcode s)) =
           (unat (registers s ! Vx_of (opcode s)) + unat (registers s ! Vy_of (opcode s))) mod 256"
proof -
  define a where "a = registers s ! Vx_of (opcode s)"
  define b where "b = registers s ! Vy_of (opcode s)"
  define sum where "sum = (ucast a + ucast b :: u16)"
  have us: "unat sum = unat a + unat b"
    unfolding sum_def by (rule sum16)
  have gt: "sum > 255 \<longleftrightarrow> unat a + unat b > 255"
    using us by (simp add: word_less_nat_alt)
  have low: "unat (ucast (sum AND 0xFF) :: u8) = (unat a + unat b) mod 256"
    using us by (simp add: low_byte)
  show ?thesis
    using assms Vx_of_less [of "opcode s"] gt low
    by (simp add: OP_8xy4_def Let_def a_def [symmetric] b_def [symmetric] sum_def [symmetric])
qed

text \<open>Instruction \<open>0x8014\<close> with \<open>V0 = 200\<close> and \<open>V1 = 100\<close>: the sum is 300.\<close>

theorem OP_8xy4_carry_witness:
  "length (registers ((blank 0x8014)\<lparr>registers := (replicate 16 0)[0 := 200, 1 := 100]\<rparr>)) = 16 \<and>
   Vx_of (opcode ((blank 0x8014)\<lparr>registers := (replicate 16 0)[0 := 200, 1 := 100]\<rparr>)) \<noteq> 15 \<and>
   registers (OP_8xy4 ((blank 0x8014)\<lparr>registers := (replicate 16 0)[0 := 200, 1 := 100]\<rparr>)) ! 15 = 1 \<and>
   unat (registers (OP_8xy4 ((blank 0x8014)\<lparr>registers := (replicate 16 0)[0 := 200, 1 := 100]\<rparr>)) ! 0) = 44"
  using OP_8xy4_carry [of "(blank 0x8014)\<lparr>registers := (replicate 16 0)[0 := 200, 1 := 100]\<rparr>"]
  by (simp add: blank_def Vx_of_def Vy_of_def)

text \<open>
  C2 as stated fails when \<open>x = 0xF\<close>: instruction \<open>0x8F04\<close> with \<open>VF = 100\<close> and
  \<open>V0 = 200\<close> has \<open>a + b = 300 > 255\<close>, and the final store of the sum leaves
  \<open>VF = 44\<close>, not 1.
\<close>

theorem OP_8xy4_flag_is_sum_when_x_is_F:
  "unat (registers ((blank 0x8F04)\<lparr>registers := (replicate 16 0)[15 := 100, 0 := 200]\<rparr>) ! 15) +
   unat (registers ((blank 0x8F04)\<lparr>registers := (replicate 16 0)[15 := 100, 0 := 200]\<rparr>) ! 0) > 255 \<and>
   registers (OP_8xy4 ((blank 0x8F04)\<lparr>registers := (replicate 16 0)[15 := 100, 0 := 200]\<rparr>)) ! 15 \<noteq> 1"
  by (simp add: OP_8xy4_def blank_def Vx_of_def Vy_of_def)

text \<open>
  C8 (as amended). When neither \<open>x\<close> nor \<open>y\<close> is \<open>0xF\<close>, for every pair of values \<open>a\<close>
  in \<open>Vx\<close> and \<open>b\<close> in \<open>Vy\<close>, \<^verbatim>\<open>OP_8xy5\<close> leaves \<open>VF = 1\<close> if and only if \<open>a > b\<close>
  (and \<open>VF = 0\<close> otherwise), and \<open>Vx = (a - b) mod 256\<close>.
\<close>

theorem OP_8xy5_no_borrow:
  assumes "length (registers s) = 16"
    and "Vx_of (opcode s) \<noteq> 15" and "Vy_of (opcode s) \<noteq> 15"
  shows "(registers (OP_8xy5 s) ! 15 = 1 \<longleftrightarrow>
            unat (registers s ! Vx_of (opcode s)) > unat (registers s ! Vy_of (opcode s))) \<and>
         (registers (OP_8xy5 s) ! 15 = 0 \<longleftrightarrow>
            unat (registers s ! Vx_of (opcode s)) \<le> unat (registers s ! Vy_of (opcode s))) \<and>
         uint (registers (OP_8xy5 s) ! Vx_of (opcode s)) =
           (uint (registers s ! Vx_of (opcode s)) - uint (registers s ! Vy_of (opcode s))) mod 256"
  using assms Vx_of_less [of "opcode s"] Vy_of_less [of "opcode s"]
  by (simp add: OP_8xy5_def Let_def word_less_nat_alt uint_word_ariths)

text \<open>Instruction \<open>0x8015\<close> with \<open>V0 = 3\<close> and \<open>V1 = 10\<close>: the difference wraps to 249.\<close>

theorem OP_8xy5_no_borrow_witness:
  "length (registers ((blank 0x8015)\<lparr>registers := (replicate 16 0)[0 := 3, 1 := 10]\<rparr>)) = 16 \<and>
   Vx_of (opcode ((blank 0x8015)\<lparr>registers := (replicate 16 0)[0 := 3, 1 := 10]\<rparr>)) \<noteq> 15 \<and>
   Vy_of (opcode ((blank 0x8015)\<lparr>registers := (replicate 16 0)[0 := 3, 1 := 10]\<rparr>)) \<noteq> 15 \<and>
   registers (OP_8xy5 ((blank 0x8015)\<lparr>registers := (replicate 16 0)[0 := 3, 1 := 10]\<rparr>)) ! 15 = 0 \<and>
   uint (registers (OP_8xy5 ((blank 0x8015)\<lparr>registers := (replicate 16 0)[0 := 3, 1 := 10]\<rparr>)) ! 0) = 249"
  using OP_8xy5_no_borrow [of "(blank 0x8015)\<lparr>registers := (replicate 16 0)[0 := 3, 1 := 10]\<rparr>"]
  by (simp add: blank_def Vx_of_def Vy_of_def)

text \<open>
  C8 as stated fails when \<open>y = 0xF\<close>: instruction \<open>0x80F5\<close> with \<open>V0 = 10\<close> and
  \<open>VF = 3\<close> stores the flag 1 into \<open>VF\<close> and then subtracts that flag, leaving
  \<open>V0 = 9\<close>, not \<open>(10 - 3) mod 256 = 7\<close>.
\<close>

theorem OP_8xy5_subtracts_flag_when_y_is_F:
  "registers ((blank 0x80F5)\<lparr>registers := (replicate 16 0)[0 := 10, 15 := 3]\<rparr>) ! 0 = 10 \<and>
   registers ((blank 0x80F5)\<lparr>registers := (replicate 16 0)[0 := 10, 15 := 3]\<rparr>) ! 15 = 3 \<and>
   registers (OP_8xy5 ((blank 0x80F5)\<lparr>registers := (replicate 16 0)[0 := 10, 15 := 3]\<rparr>)) ! 0 = 9"
  by (simp add: OP_8xy5_def blank_def Vx_of_def Vy_of_def)

section \<open>Call and return\<close>

text \<open>
  C3 (as amended). With room on the stack (\<open>sp < 16\<close>), \<^verbatim>\<open>OP_2nnn\<close> pushes by first
  storing the return address at \<open>stack[sp]\<close> and then incrementing \<open>sp\<close>, and sets
  \<open>pc\<close> to \<open>nnn\<close>. With a non-empty stack (\<open>0 < sp \<le> 16\<close>), \<^verbatim>\<open>OP_00EE\<close> pops by
  first decrementing \<open>sp\<close> and then loading the entry there into \<open>pc\<close>.
\<close>

theorem call_stores_then_increments:
  assumes "length (stack s) = 16"
  shows "(unat (sp s) < 16 \<longrightarrow>
            OP_2nnn s =
              Inr (s\<lparr>stack := (stack s)[unat (sp s) := pc s], sp := sp s + 1,
                     pc := opcode s AND 0x0FFF\<rparr>)) \<and>
         (sp s \<noteq> 0 \<and> unat (sp s) \<le> 16 \<longrightarrow>
            OP_00EE s = Inr (s\<lparr>sp := sp s - 1, pc := stack s ! (unat (sp s) - 1)\<rparr>))"
proof (intro conjI impI)
  assume "unat (sp s) < 16"
  then show "OP_2nnn s =
      Inr (s\<lparr>stack := (stack s)[unat (sp s) := pc s], sp := sp s + 1, pc := opcode s AND 0x0FFF\<rparr>)"
    using assms by (simp add: OP_2nnn_def store_at_def)
next
  assume a: "sp s \<noteq> 0 \<and> unat (sp s) \<le> 16"
  then have "unat (sp s - 1) = unat (sp s) - 1"
    by (simp add: unat_minus_one)
  moreover have "0 < unat (sp s)"
    using a by (simp add: unat_gt_0)
  then have "unat (sp s) - 1 < 16"
    using a by arith
  ultimately show "OP_00EE s = Inr (s\<lparr>sp := sp s - 1, pc := stack s ! (unat (sp s) - 1)\<rparr>)"
    using assms \<open>unat (sp s) - 1 < 16\<close> by (simp add: OP_00EE_def load_at_def Let_def)
qed

text \<open>
  A call \<open>0x2300\<close> on the fresh machine, and a return on a machine whose stack holds one
  address, \<open>0x204\<close>.
\<close>

theorem call_stores_then_increments_witness:
  "length (stack (blank 0x2300)) = 16 \<and> unat (sp (blank 0x2300)) < 16 \<and>
   OP_2nnn (blank 0x2300) =
     Inr ((blank 0x2300)\<lparr>stack := (replicate 16 0)[0 := 0x200], sp := 1, pc := 0x300\<rparr>) \<and>
   sp ((blank 0x00EE)\<lparr>stack := (replicate 16 0)[0 := 0x204], sp := 1\<rparr>) \<noteq> 0 \<and>
   OP_00EE ((blank 0x00EE)\<lparr>stack := (replicate 16 0)[0 := 0x204], sp := 1\<rparr>) =
     Inr ((blank 0x00EE)\<lparr>stack := (replicate 16 0)[0 := 0x204], sp := 0, pc := 0x204\<rparr>)"
  using call_stores_then_increments [of "blank 0x2300"]
    call_stores_then_increments [of "(blank 0x00EE)\<lparr>stack := (replicate 16 0)[0 := 0x204], sp := 1\<rparr>"]
  by (simp add: blank_def)

text \<open>
  C3 as stated fails for the call: on the fresh machine (\<open>sp = 0\<close>, \<open>pc = 0x200\<close>) the
  call \<open>0x2300\<close> returns without fault, and afterwards the entry at the new stack pointer
  is not the return address; the entry at the old stack pointer is.
\<close>

theorem call_does_not_store_at_new_top:
  "\<not> isl (OP_2nnn (blank 0x2300)) \<and>
   stack (projr (OP_2nnn (blank 0x2300))) ! unat (sp (projr (OP_2nnn (blank 0x2300))))
     \<noteq> pc (blank 0x2300) \<and>
   stack (projr (OP_2nnn (blank 0x2300))) ! unat (sp (blank 0x2300)) = pc (blank 0x2300)"
  by (simp add: OP_2nnn_def store_at_def blank_def)

section \<open>Skip if not equal to the immediate\<close>

text \<open>
  C4 (the code at the failing input). Instruction \<open>0x4012\<close> with \<open>V0 = 0x12\<close>: the
  register equals the immediate byte \<open>kk = 0x12\<close> (bits 7-0 of the instruction word),
  and \<^verbatim>\<open>OP_4xkk\<close> still advances \<open>pc\<close> by 2, because it compares the register with
  \<^verbatim>\<open>opcode & 0x00Fu\<close>, which is 2. \<^verbatim>\<open>OP_3xkk\<close> masks with \<^verbatim>\<open>0x00FFu\<close> and skips on
  the same register and immediate.
\<close>

theorem OP_4xkk_skips_on_equal_byte:
  "registers ((blank 0x4012)\<lparr>registers := (replicate 16 0)[0 := 0x12]\<rparr>)
     ! Vx_of (opcode ((blank 0x4012)\<lparr>registers := (replicate 16 0)[0 := 0x12]\<rparr>))
     = ucast (opcode ((blank 0x4012)\<lparr>registers := (replicate 16 0)[0 := 0x12]\<rparr>) AND 0x00FF) \<and>
   pc (OP_4xkk ((blank 0x4012)\<lparr>registers := (replicate 16 0)[0 := 0x12]\<rparr>))
     = pc ((blank 0x4012)\<lparr>registers := (replicate 16 0)[0 := 0x12]\<rparr>) + 2 \<and>
   pc (OP_3xkk ((blank 0x3012)\<lparr>registers := (replicate 16 0)[0 := 0x12]\<rparr>))
     = pc ((blank 0x3012)\<lparr>registers := (replicate 16 0)[0 := 0x12]\<rparr>) + 2"
  by (simp add: OP_4xkk_def OP_3xkk_def blank_def Vx_of_def)

section \<open>Waiting for a key\<close>

text \<open>
  C7. With no key pressed, \<^verbatim>\<open>OP_Fx0A\<close> changes nothing but \<open>pc\<close>, which it rewinds by 2:
  run after a fetch that advanced \<open>pc\<close> by 2, it leaves \<open>pc\<close> where it was before the
  fetch, and every register keeps its value. When key \<open>k\<close> is pressed and no key of lower
  index is, it stores \<open>k\<close> into \<open>Vx\<close> and leaves \<open>pc\<close> alone.
\<close>

theorem OP_Fx0A_waits_for_lowest_key:
  "((\<forall>i<16. keypad s ! i = 0) \<longrightarrow>
      OP_Fx0A s = s\<lparr>pc := pc s - 2\<rparr> \<and>
      registers (OP_Fx0A s) = registers s \<and>
      pc (OP_Fx0A (s\<lparr>pc := pc s + 2\<rparr>)) = pc s) \<and>
   (k < 16 \<and> keypad s ! k \<noteq> 0 \<and> (\<forall>j<k. keypad s ! j = 0) \<longrightarrow>
      OP_Fx0A s = s\<lparr>registers := (registers s)[Vx_of (opcode s) := of_nat k]\<rparr> \<and>
      pc (OP_Fx0A s) = pc s)"
proof (intro conjI impI)
  assume none: "\<forall>i<16. keypad s ! i = 0"
  then show "OP_Fx0A s = s\<lparr>pc := pc s - 2\<rparr>"
    by (simp add: OP_Fx0A_def)
  then show "registers (OP_Fx0A s) = registers s"
    by simp
  from none have "OP_Fx0A (s\<lparr>pc := pc s + 2\<rparr>) = s\<lparr>pc := pc s + 2 - 2\<rparr>"
    by (simp add: OP_Fx0A_def)
  then show "pc (OP_Fx0A (s\<lparr>pc := pc s + 2\<rparr>)) = pc s"
    by simp
next
  assume some: "k < 16 \<and> keypad s ! k \<noteq> 0 \<and> (\<forall>j<k. keypad s ! j = 0)"
  then have "k < 16" by simp
  then show "OP_Fx0A s = s\<lparr>registers := (registers s)[Vx_of (opcode s) := of_nat k]\<rparr>"
  proof (cases k rule: nibble_cases)
  qed (use some in \<open>simp_all add: OP_Fx0A_def\<close>)
  then show "pc (OP_Fx0A s) = pc s"
    by simp
qed

text \<open>
  Instruction \<open>0xF20A\<close>: on the fresh machine no key is pressed; with keys 3 and 7
  pressed, \<open>V2\<close> receives 3.
\<close>

theorem OP_Fx0A_waits_for_lowest_key_witness:
  "keypad (blank 0xF20A) = replicate 16 0 \<and>
   OP_Fx0A (blank 0xF20A) = (blank 0xF20A)\<lparr>pc := 0x1FE\<rparr> \<and>
   pc (OP_Fx0A ((blank 0xF20A)\<lparr>pc := 0x202\<rparr>)) = 0x200 \<and>
   keypad ((blank 0xF20A)\<lparr>keypad := (replicate 16 0)[3 := 1, 7 := 1]\<rparr>) ! 3 \<noteq> 0 \<and>
   OP_Fx0A ((blank 0xF20A)\<lparr>keypad := (replicate 16 0)[3 := 1, 7 := 1]\<rparr>) =
     (blank 0xF20A)\<lparr>keypad := (replicate 16 0)[3 := 1, 7 := 1],
                      registers := (replicate 16 0)[2 := 3]\<rparr>"
  using OP_Fx0A_waits_for_lowest_key [of "blank 0xF20A" 0]
    OP_Fx0A_waits_for_lowest_key [of "(blank 0xF20A)\<lparr>keypad := (replicate 16 0)[3 := 1, 7 := 1]\<rparr>" 3]
  by (simp add: blank_def Vx_of_def)

section \<open>Binary-coded decimal\<close>

text \<open>
  C9. When \<open>index + 2\<close> is an address of the memory, \<^verbatim>\<open>OP_Fx33\<close> returns without fault
  and, for every value \<open>v\<close> of \<open>Vx\<close>, leaves the hundreds digit of \<open>v\<close> at
  \<open>memory[index]\<close>, the tens digit at \<open>memory[index + 1]\<close> and the ones digit at
  \<open>memory[index + 2]\<close>.
\<close>

theorem OP_Fx33_digits:
  assumes "length (memory s) = 4096" and "unat (index s) + 2 < 4096"
  shows "\<exists>s'. OP_Fx33 s = Inr s' \<and>
           unat (memory s' ! unat (index s)) = unat (registers s ! Vx_of (opcode s)) div 100 \<and>
           unat (memory s' ! (unat (index s) + 1)) =
             unat (registers s ! Vx_of (opcode s)) div 10 mod 10 \<and>
           unat (memory s' ! (unat (index s) + 2)) = unat (registers s ! Vx_of (opcode s)) mod 10"
proof -
  have "unat (registers s ! Vx_of (opcode s)) < 256"
    by (rule u8_less)
  then show ?thesis
    using assms by (simp add: OP_Fx33_def store_at_def Let_def unat_div unat_mod div_mult2_eq)
qed

text \<open>Instruction \<open>0xF033\<close> with \<open>V0 = 255\<close> and \<open>index = 0x300\<close>: the digits 2, 5, 5.\<close>

theorem OP_Fx33_digits_witness:
  "length (memory ((blank 0xF033)\<lparr>registers := (replicate 16 0)[0 := 255], index := 0x300\<rparr>)) = 4096 \<and>
   unat (index ((blank 0xF033)\<lparr>registers := (replicate 16 0)[0 := 255], index := 0x300\<rparr>)) + 2 < 4096 \<and>
   (\<exists>s'. OP_Fx33 ((blank 0xF033)\<lparr>registers := (replicate 16 0)[0 := 255], index := 0x300\<rparr>) = Inr s' \<and>
      unat (memory s' ! 0x300) = 2 \<and> unat (memory s' ! 0x301) = 5 \<and> unat (memory s' ! 0x302) = 5)"
  using OP_Fx33_digits [of "(blank 0xF033)\<lparr>registers := (replicate 16 0)[0 := 255], index := 0x300\<rparr>"]
  by (simp add: blank_def Vx_of_def)

section \<open>Loading a program\<close>

lemma loaded_start: "loaded s buffer 0 s"
  by (simp add: loaded_def)

lemma loaded_step:
  assumes "loaded s buffer j t" and "START_ADDRESS + j < length (memory s)"
  shows "\<exists>t'. LoadROM_body buffer j t = Inr t' \<and> loaded s buffer (Suc j) t'"
  using assms
  by (auto simp: loaded_def LoadROM_body_def store_at_def nth_list_update less_Suc_eq)

lemma LoadROM_fits:
  assumes "START_ADDRESS + length buffer \<le> length (memory s)"
  shows "\<exists>t. LoadROM (Some buffer) s = Inr t \<and> loaded s buffer (length buffer) t"
  unfolding LoadROM_def option.case
proof (rule for_loop_total)
  show "loaded s buffer 0 s"
    by (rule loaded_start)
  show "\<And>j t. 0 \<le> j \<Longrightarrow> j < length buffer \<Longrightarrow> loaded s buffer j t \<Longrightarrow>
         \<exists>t'. LoadROM_body buffer j t = Inr t' \<and> loaded s buffer (Suc j) t'"
    using assms by (intro loaded_step) simp_all
qed simp

text \<open>
  An image longer than the room above \<^verbatim>\<open>START_ADDRESS\<close>: the loop stores the bytes
  that fit and then stores at the index one past the end of the memory.
\<close>

lemma LoadROM_overflow:
  assumes "START_ADDRESS \<le> length (memory s)"
    and "length (memory s) < START_ADDRESS + length buffer"
  shows "LoadROM (Some buffer) s = Inl (OutOfBounds Memory (length (memory s)))"
  unfolding LoadROM_def option.case
proof (rule for_loop_fault [where k = "length (memory s) - START_ADDRESS" and P = "loaded s buffer"])
  show "loaded s buffer 0 s"
    by (rule loaded_start)
  show "length (memory s) - START_ADDRESS < length buffer"
    using assms by simp
  show "\<And>j t. 0 \<le> j \<Longrightarrow> j < length (memory s) - START_ADDRESS \<Longrightarrow> loaded s buffer j t \<Longrightarrow>
         \<exists>t'. LoadROM_body buffer j t = Inr t' \<and> loaded s buffer (Suc j) t'"
    by (intro loaded_step) simp_all
  show "\<And>t. loaded s buffer (length (memory s) - START_ADDRESS) t \<Longrightarrow>
         LoadROM_body buffer (length (memory s) - START_ADDRESS) t =
           Inl (OutOfBounds Memory (length (memory s)))"
    using assms by (simp add: loaded_def LoadROM_body_def store_at_def)
qed simp

text \<open>
  C1 (as amended). Loading a program image of at most \<open>4096 - 0x200\<close> bytes, in
  particular one of exactly that length, returns without fault and places byte \<open>i\<close> of
  the image at memory address \<open>0x200 + i\<close> for every \<open>i\<close>; the other bytes of the memory
  and the other members keep their values.
\<close>

theorem LoadROM_places_image:
  assumes "length (memory s) = 4096" and "length buffer \<le> 4096 - 0x200"
  shows "\<exists>s'. LoadROM (Some buffer) s = Inr s' \<and>
           s' = s\<lparr>memory := memory s'\<rparr> \<and> length (memory s') = 4096 \<and>
           (\<forall>i<length buffer. memory s' ! (0x200 + i) = buffer ! i) \<and>
           (\<forall>a. a < 0x200 \<or> 0x200 + length buffer \<le> a \<longrightarrow> memory s' ! a = memory s ! a)"
proof -
  have "START_ADDRESS + length buffer \<le> length (memory s)"
    using assms by (simp add: START_ADDRESS_def)
  then obtain t where t: "LoadROM (Some buffer) s = Inr t" "loaded s buffer (length buffer) t"
    using LoadROM_fits by blast
  have "t = s\<lparr>memory := memory t\<rparr>"
    using t(2) by (metis (no_types) loaded_def chip8.surjective chip8.update_convs(2))
  then show ?thesis
    using t assms by (auto simp: loaded_def START_ADDRESS_def)
qed

text \<open>
  An image of exactly \<open>4096 - 0x200 = 3584\<close> bytes \<open>0xAB\<close> on the fresh machine: the first
  and the last byte of the image are at \<open>0x200\<close> and \<open>0xFFF\<close>, and the byte below
  \<open>0x200\<close> is untouched.
\<close>

theorem LoadROM_places_image_witness:
  "length (memory (blank 0)) = 4096 \<and> length (replicate 3584 (0xAB::u8)) = 4096 - 0x200 \<and>
   (\<exists>s'. LoadROM (Some (replicate 3584 0xAB)) (blank 0) = Inr s' \<and>
      memory s' ! 0x200 = 0xAB \<and> memory s' ! 0xFFF = 0xAB \<and> memory s' ! 0x1FF = 0)"
proof -
  obtain s' where s': "LoadROM (Some (replicate 3584 0xAB)) (blank 0) = Inr s'"
    and img: "\<forall>i<length (replicate 3584 (0xAB::u8)).
                memory s' ! (0x200 + i) = replicate 3584 (0xAB::u8) ! i"
    and rest: "\<forall>a. a < 0x200 \<or> 0x200 + length (replicate 3584 (0xAB::u8)) \<le> a \<longrightarrow>
                memory s' ! a = memory (blank 0) ! a"
    using LoadROM_places_image [of "blank 0" "replicate 3584 0xAB"]
    by (auto simp: blank_def)
  have "memory s' ! (0x200 + 0) = 0xAB"
    using img [THEN spec, of 0] by simp
  moreover have "memory s' ! (0x200 + 3583) = 0xAB"
    using img [THEN spec, of 3583] by simp
  moreover have "memory s' ! 0x1FF = 0"
    using rest [THEN spec, of "0x1FF"] by (simp add: blank_def)
  ultimately show ?thesis
    using s' by (simp add: blank_def)
qed

text \<open>
  C1 as stated fails for the longer image: with 3585 bytes on the fresh machine the loader
  neither rejects the image nor truncates it. Its first 3584 iterations run without fault,
  and the next one stores at index 4096 of the 4096-byte memory.
\<close>

theorem LoadROM_stores_past_the_memory:
  "\<not> isl (for_loop 0 3584 (LoadROM_body (replicate 3585 0)) (blank 0)) \<and>
   LoadROM (Some (replicate 3585 0)) (blank 0) = Inl (OutOfBounds Memory 4096)"
proof -
  have "LoadROM (Some (replicate 3585 0)) (blank 0) =
          Inl (OutOfBounds Memory (length (memory (blank 0))))"
    by (rule LoadROM_overflow) (simp_all add: blank_def START_ADDRESS_def)
  moreover have "\<exists>t. for_loop 0 3584 (LoadROM_body (replicate 3585 0)) (blank 0) = Inr t \<and>
                   loaded (blank 0) (replicate 3585 0) 3584 t"
  proof (rule for_loop_total)
    show "loaded (blank 0) (replicate 3585 0) 0 (blank 0)"
      by (rule loaded_start)
    show "\<And>j t. 0 \<le> j \<Longrightarrow> j < 3584 \<Longrightarrow> loaded (blank 0) (replicate 3585 0) j t \<Longrightarrow>
           \<exists>t'. LoadROM_body (replicate 3585 0) j t = Inr t' \<and>
                loaded (blank 0) (replicate 3585 0) (Suc j) t'"
      by (intro loaded_step) (simp_all add: blank_def START_ADDRESS_def)
  qed simp
  ultimately show ?thesis
    by (auto simp: blank_def)
qed

section \<open>Register dump and register load\<close>

lemma OP_Fx55_body_frame:
  "OP_Fx55_body i u = Inr u' \<Longrightarrow> index u' = index u \<and> length (memory u') = length (memory u)"
  by (auto simp: OP_Fx55_body_def store_at_def split: if_splits)

lemma OP_Fx65_body_frame:
  "OP_Fx65_body i u = Inr u' \<Longrightarrow> index u' = index u \<and> memory u' = memory u"
  by (auto simp: OP_Fx65_body_def load_at_def split: if_splits)

lemma OP_Fx55_index:
  assumes "OP_Fx55 s = Inr s'"
  shows "index s' = index s"
proof -
  have "for_loop 0 (Suc (Vx_of (opcode s))) OP_Fx55_body s = Inr s'"
    using assms by (simp add: OP_Fx55_def)
  then show ?thesis
    by (rule for_loop_partial [where P = "\<lambda>j t. index t = index s"])
      (auto dest: OP_Fx55_body_frame)
qed

lemma OP_Fx65_index:
  assumes "OP_Fx65 s = Inr s'"
  shows "index s' = index s"
proof -
  have "for_loop 0 (Suc (Vx_of (opcode s))) OP_Fx65_body s = Inr s'"
    using assms by (simp add: OP_Fx65_def)
  then show ?thesis
    by (rule for_loop_partial [where P = "\<lambda>j t. index t = index s"])
      (auto dest: OP_Fx65_body_frame)
qed

lemma OP_Fx55_returns:
  assumes "unat (index s) + Vx_of (opcode s) < length (memory s)"
  shows "\<exists>s'. OP_Fx55 s = Inr s' \<and> (index s' = index s \<and> length (memory s') = length (memory s))"
  unfolding OP_Fx55_def Let_def
proof (rule for_loop_total
    [where P = "\<lambda>j t. index t = index s \<and> length (memory t) = length (memory s)"])
  show "\<And>j t. 0 \<le> j \<Longrightarrow> j < Suc (Vx_of (opcode s)) \<Longrightarrow>
         index t = index s \<and> length (memory t) = length (memory s) \<Longrightarrow>
         \<exists>t'. OP_Fx55_body j t = Inr t' \<and> index t' = index s \<and>
              length (memory t') = length (memory s)"
    using assms by (auto simp: OP_Fx55_body_def store_at_def)
qed simp_all

lemma OP_Fx65_returns:
  assumes "unat (index s) + Vx_of (opcode s) < length (memory s)"
  shows "\<exists>s'. OP_Fx65 s = Inr s' \<and> (index s' = index s \<and> memory s' = memory s)"
  unfolding OP_Fx65_def Let_def
proof (rule for_loop_total [where P = "\<lambda>j t. index t = index s \<and> memory t = memory s"])
  show "\<And>j t. 0 \<le> j \<Longrightarrow> j < Suc (Vx_of (opcode s)) \<Longrightarrow>
         index t = index s \<and> memory t = memory s \<Longrightarrow>
         \<exists>t'. OP_Fx65_body j t = Inr t' \<and> index t' = index s \<and> memory t' = memory s"
    using assms by (auto simp: OP_Fx65_body_def load_at_def)
qed simp_all

text \<open>
  C10. Whenever \<^verbatim>\<open>OP_Fx55\<close> or \<^verbatim>\<open>OP_Fx65\<close> returns, the index register has the value
  it had before: neither adds \<open>x + 1\<close> to it. Both return whenever the last address they
  use, \<open>index + x\<close>, is an address of the memory.
\<close>

theorem dump_and_load_keep_index:
  "(\<forall>s'. OP_Fx55 s = Inr s' \<longrightarrow> index s' = index s) \<and>
   (\<forall>s'. OP_Fx65 s = Inr s' \<longrightarrow> index s' = index s) \<and>
   (unat (index s) + Vx_of (opcode s) < length (memory s) \<longrightarrow>
      (\<exists>s'. OP_Fx55 s = Inr s') \<and> (\<exists>s'. OP_Fx65 s = Inr s'))"
  using OP_Fx55_index [of s] OP_Fx65_index [of s] OP_Fx55_returns [of s] OP_Fx65_returns [of s]
  by blast

text \<open>
  Instruction \<open>0xF355\<close> (or \<open>0xF365\<close>: the handlers read only \<open>x = 3\<close> from it) with
  \<open>index = 0x300\<close>: both handlers return, with \<open>index = 0x300\<close>, not \<open>0x304\<close>.
\<close>

theorem dump_and_load_keep_index_witness:
  "unat (index ((blank 0xF355)\<lparr>registers := (replicate 16 0)[0 := 1, 1 := 2, 2 := 3, 3 := 4],
                                index := 0x300\<rparr>))
     + Vx_of (opcode ((blank 0xF355)\<lparr>registers := (replicate 16 0)[0 := 1, 1 := 2, 2 := 3, 3 := 4],
                                       index := 0x300\<rparr>))
     < length (memory ((blank 0xF355)\<lparr>registers := (replicate 16 0)[0 := 1, 1 := 2, 2 := 3, 3 := 4],
                                        index := 0x300\<rparr>)) \<and>
   (\<exists>s'. OP_Fx55 ((blank 0xF355)\<lparr>registers := (replicate 16 0)[0 := 1, 1 := 2, 2 := 3, 3 := 4],
                                  index := 0x300\<rparr>) = Inr s' \<and> index s' = 0x300) \<and>
   (\<exists>s'. OP_Fx65 ((blank 0xF355)\<lparr>registers := (replicate 16 0)[0 := 1, 1 := 2, 2 := 3, 3 := 4],
                                  index := 0x300\<rparr>) = Inr s' \<and> index s' = 0x300)"
  using dump_and_load_keep_index
    [of "(blank 0xF355)\<lparr>registers := (replicate 16 0)[0 := 1, 1 := 2, 2 := 3, 3 := 4],
                          index := 0x300\<rparr>"]
  by (auto simp: blank_def Vx_of_def)

section \<open>Drawing a sprite\<close>

subsection \<open>Inverting a set of cells\<close>

lemma length_toggled [simp]: "length (toggled D v) = length v"
  by (simp add: toggled_def)

lemma nth_toggled:
  "k < length v \<Longrightarrow> toggled D v ! k = (if k \<in> D then v ! k XOR 0xFFFFFFFF else v ! k)"
  by (simp add: toggled_def)

lemma toggled_empty [simp]: "toggled {} v = v"
  by (simp add: toggled_def map_nth)

lemma flagged_empty [simp]: "flagged {} v rg = rg"
  by (simp add: flagged_def)

lemma toggled_insert:
  assumes "k \<notin> D" and "k < length v"
  shows "(toggled D v)[k := toggled D v ! k XOR 0xFFFFFFFF] = toggled (insert k D) v"
  using assms by (auto simp: nth_toggled nth_list_update intro!: nth_equalityI)

lemma flagged_insert:
  assumes "k \<notin> D" and "k < length v"
  shows "(if toggled D v ! k = 0xFFFFFFFF then (flagged D v rg)[15 := 1] else flagged D v rg)
           = flagged (insert k D) v rg"
  using assms by (auto simp: nth_toggled flagged_def)

lemma toggled_twice: "toggled D (toggled D v) = v"
  by (rule nth_equalityI) (simp_all add: nth_toggled xor.assoc)

lemma flagged_clear: "flagged D (replicate n 0) rg = rg"
  by (auto simp: flagged_def)

lemma flagged_lit:
  assumes "\<And>k. k \<in> D \<Longrightarrow> k < n" and "length rg = 16"
  shows "flagged D (toggled D (replicate n 0)) rg ! 15 = (if D = {} then rg ! 15 else 1)"
  using assms by (auto simp: flagged_def nth_toggled)

subsection \<open>The cells of a sprite\<close>

lemma mod_64_low: "col < 8 \<Longrightarrow> (n * 64 + col) mod 64 = (col::nat)"
  by simp

lemma div_64_low: "col < 8 \<Longrightarrow> (n * 64 + col) div 64 = (n::nat)"
  by simp

text \<open>Two bits of a sprite never share a cell, whatever the origin.\<close>

lemma cell_inj:
  assumes "cell xPos yPos row col = cell xPos yPos r c" and "col < 8" and "c < 8"
  shows "row = r \<and> col = c"
proof -
  have e: "(yPos + row) * 64 + col = (yPos + r) * 64 + c"
    using assms(1) by (simp add: cell_def VIDEO_WIDTH_def)
  have "col = c"
    using arg_cong [OF e, of "\<lambda>n. n mod 64"] assms(2,3)
    by (simp only: mod_64_low)
  moreover have "yPos + row = yPos + r"
    using arg_cong [OF e, of "\<lambda>n. n div 64"] assms(2,3)
    by (simp only: div_64_low)
  ultimately show ?thesis
    by simp
qed

lemma cell_fresh: "c < 8 \<Longrightarrow> cell xPos yPos r c \<notin> drawn s xPos yPos r c"
  by (auto simp: drawn_def dest: cell_inj)

lemma drawn_Suc:
  "c < 8 \<Longrightarrow>
   drawn s xPos yPos r (Suc c) =
     (if lit s r c then insert (cell xPos yPos r c) (drawn s xPos yPos r c)
      else drawn s xPos yPos r c)"
  by (auto simp: drawn_def less_Suc_eq)

lemma drawn_row_end: "drawn s xPos yPos r 8 = drawn s xPos yPos (Suc r) 0"
  by (auto simp: drawn_def less_Suc_eq)

lemma drawn_start [simp]: "drawn s xPos yPos 0 0 = {}"
  by (simp add: drawn_def)

lemma bit_of_byte:
  assumes "c < 8"
  shows "(b::u8) AND drop_bit c 0x80 \<noteq> 0 \<longleftrightarrow> bit b (7 - c)"
proof -
  from assms have "c < 16"
    by simp
  then have "drop_bit c (0x80::u8) = 2 ^ (7 - c)"
    using assms by (cases c rule: nibble_cases) (simp_all add: drop_bit_eq_div)
  then show ?thesis
    by (simp add: and_exp_eq_0_iff_not_bit)
qed

lemma byte_nonzero_iff: "(b::u8) \<noteq> 0 \<longleftrightarrow> (\<exists>c<8. b AND drop_bit c 0x80 \<noteq> 0)"
proof
  assume "b \<noteq> 0"
  then obtain n where n: "bit b n"
    by (auto simp: bit_eq_iff)
  then have "n < 8"
    using bit_imp_le_length [of b n] by simp
  then have "7 - (7 - n) = n" and "7 - n < 8"
    by simp_all
  then have "b AND drop_bit (7 - n) 0x80 \<noteq> 0"
    using n by (simp add: bit_of_byte)
  then show "\<exists>c<8. b AND drop_bit c 0x80 \<noteq> 0"
    using \<open>7 - n < 8\<close> by blast
next
  assume "\<exists>c<8. b AND drop_bit c 0x80 \<noteq> 0"
  then show "b \<noteq> 0"
    by auto
qed

lemma lit_row_iff: "(\<exists>c<8. lit s r c) \<longleftrightarrow> memory s ! (unat (index s) + r) \<noteq> 0"
  unfolding lit_def by (rule byte_nonzero_iff [symmetric])

lemma sprite_cells_empty_iff:
  "sprite_cells s = {} \<longleftrightarrow> \<not> (\<exists>r<height_of s. memory s ! (unat (index s) + r) \<noteq> 0)"
proof -
  have "sprite_cells s = {} \<longleftrightarrow> \<not> (\<exists>r<height_of s. \<exists>c<8. lit s r c)"
    by (auto simp: sprite_cells_def drawn_def)
  then show ?thesis
    by (simp only: lit_row_iff)
qed

lemma cell_in_sprite_cells:
  assumes "row < height_of s" and "col < 8"
  shows "cell (xPos_of s) (yPos_of s) row col \<in> sprite_cells s \<longleftrightarrow> lit s row col"
  using assms by (auto simp: sprite_cells_def drawn_def dest: cell_inj)

lemma sprite_cells_bound:
  assumes "in_bounds s" and "k \<in> sprite_cells s"
  shows "k < length (video s)"
  using assms by (auto simp: in_bounds_def sprite_cells_def drawn_def)

subsection \<open>The loops of the handler\<close>

lemma draw_pixel_step:
  assumes u: "u = s0\<lparr>registers := flagged D v rg, video := toggled D v\<rparr>"
    and fresh: "cell xPos yPos row col \<notin> D"
    and inb: "b AND drop_bit col 0x80 \<noteq> 0 \<Longrightarrow> cell xPos yPos row col < length v"
  shows "draw_pixel b xPos yPos row col u =
           Inr (s0\<lparr>registers :=
                     flagged (if b AND drop_bit col 0x80 \<noteq> 0
                              then insert (cell xPos yPos row col) D else D) v rg,
                   video :=
                     toggled (if b AND drop_bit col 0x80 \<noteq> 0
                              then insert (cell xPos yPos row col) D else D) v\<rparr>)"
proof (cases "b AND drop_bit col 0x80 \<noteq> 0")
  case True
  then have k: "cell xPos yPos row col < length v"
    by (rule inb)
  show ?thesis
    using True k
    by (simp add: draw_pixel_def u load_at_def Let_def cell_def [symmetric]
        toggled_insert [OF fresh k] flagged_insert [OF fresh k, of rg, symmetric])
next
  case False
  then show ?thesis
    by (simp add: draw_pixel_def u)
qed

lemma painted_fields [simp]:
  "memory (painted s D) = memory s" "index (painted s D) = index s"
  "video (painted s D) = toggled D (video s)"
  "registers (painted s D) = flagged D (video s) ((registers s)[15 := 0])"
  "opcode (painted s D) = opcode s"
  by (simp_all add: painted_def)

lemma painted_pixel:
  assumes "c < 8" and "lit s r c \<Longrightarrow> cell xPos yPos r c < length (video s)"
  shows "draw_pixel (memory s ! (unat (index s) + r)) xPos yPos r c
           (painted s (drawn s xPos yPos r c)) =
         Inr (painted s (drawn s xPos yPos r (Suc c)))"
proof -
  have "draw_pixel (memory s ! (unat (index s) + r)) xPos yPos r c
          (painted s (drawn s xPos yPos r c)) =
        Inr (s\<lparr>registers :=
                  flagged (if memory s ! (unat (index s) + r) AND drop_bit c 0x80 \<noteq> 0
                           then insert (cell xPos yPos r c) (drawn s xPos yPos r c)
                           else drawn s xPos yPos r c)
                    (video s) ((registers s)[15 := 0]),
                video :=
                  toggled (if memory s ! (unat (index s) + r) AND drop_bit c 0x80 \<noteq> 0
                           then insert (cell xPos yPos r c) (drawn s xPos yPos r c)
                           else drawn s xPos yPos r c)
                    (video s)\<rparr>)"
  proof (rule draw_pixel_step)
    show "painted s (drawn s xPos yPos r c) =
            s\<lparr>registers := flagged (drawn s xPos yPos r c) (video s) ((registers s)[15 := 0]),
              video := toggled (drawn s xPos yPos r c) (video s)\<rparr>"
      by (simp add: painted_def)
    show "cell xPos yPos r c \<notin> drawn s xPos yPos r c"
      using assms(1) by (rule cell_fresh)
    show "memory s ! (unat (index s) + r) AND drop_bit c 0x80 \<noteq> 0 \<Longrightarrow>
            cell xPos yPos r c < length (video s)"
      using assms(2) by (simp add: lit_def)
  qed
  then show ?thesis
    using assms(1) by (simp add: drawn_Suc painted_def lit_def)
qed

lemma painted_row:
  assumes "unat (index s) + r < length (memory s)"
    and "\<And>c. c < 8 \<Longrightarrow> lit s r c \<Longrightarrow> cell xPos yPos r c < length (video s)"
  shows "draw_row xPos yPos r (painted s (drawn s xPos yPos r 0)) =
           Inr (painted s (drawn s xPos yPos (Suc r) 0))"
proof -
  have "\<exists>t. for_loop 0 8 (draw_pixel (memory s ! (unat (index s) + r)) xPos yPos r)
              (painted s (drawn s xPos yPos r 0)) = Inr t \<and>
            t = painted s (drawn s xPos yPos r 8)"
  proof (rule for_loop_total [where P = "\<lambda>c t. t = painted s (drawn s xPos yPos r c)"])
    show "\<And>j t. 0 \<le> j \<Longrightarrow> j < 8 \<Longrightarrow> t = painted s (drawn s xPos yPos r j) \<Longrightarrow>
            \<exists>t'. draw_pixel (memory s ! (unat (index s) + r)) xPos yPos r j t = Inr t' \<and>
                 t' = painted s (drawn s xPos yPos r (Suc j))"
      using assms(2) by (simp add: painted_pixel)
  qed simp_all
  then show ?thesis
    using assms(1) by (simp add: draw_row_def load_at_def drawn_row_end)
qed

text \<open>
  A draw all of whose accesses are within the arrays returns the machine with the cells
  of the sprite inverted and the flag telling whether one of them was fully on.
\<close>

lemma OP_Dxyn_painted:
  assumes "in_bounds s"
  shows "OP_Dxyn s = Inr (painted s (sprite_cells s))"
proof -
  have start: "s\<lparr>registers := (registers s)[15 := 0]\<rparr> =
                 painted s (drawn s (xPos_of s) (yPos_of s) 0 0)"
    by (simp add: painted_def)
  have "\<exists>t. for_loop 0 (height_of s) (draw_row (xPos_of s) (yPos_of s))
              (painted s (drawn s (xPos_of s) (yPos_of s) 0 0)) = Inr t \<and>
            t = painted s (drawn s (xPos_of s) (yPos_of s) (height_of s) 0)"
  proof (rule for_loop_total
      [where P = "\<lambda>r t. t = painted s (drawn s (xPos_of s) (yPos_of s) r 0)"])
    show "\<And>j t. 0 \<le> j \<Longrightarrow> j < height_of s \<Longrightarrow>
            t = painted s (drawn s (xPos_of s) (yPos_of s) j 0) \<Longrightarrow>
            \<exists>t'. draw_row (xPos_of s) (yPos_of s) j t = Inr t' \<and>
                 t' = painted s (drawn s (xPos_of s) (yPos_of s) (Suc j) 0)"
      using assms by (simp add: painted_row in_bounds_def)
  qed simp_all
  then show ?thesis
    by (simp add: OP_Dxyn_def Let_def start sprite_cells_def
        xPos_of_def [symmetric] yPos_of_def [symmetric] height_of_def [symmetric])
qed

subsection \<open>A draw that returns made no access outside the arrays\<close>

lemma draw_pixel_Inr:
  assumes "draw_pixel b xPos yPos r c t = Inr t'"
  shows "length (video t') = length (video t) \<and> memory t' = memory t \<and> index t' = index t \<and>
         (b AND drop_bit c 0x80 \<noteq> 0 \<longrightarrow> cell xPos yPos r c < length (video t))"
  using assms
  by (auto simp: draw_pixel_def load_at_def Let_def cell_def split: if_splits)

lemma draw_row_Inr:
  assumes "draw_row xPos yPos r t = Inr t'"
  shows "length (video t') = length (video t) \<and> memory t' = memory t \<and> index t' = index t \<and>
         unat (index t) + r < length (memory t) \<and>
         (\<forall>c<8. lit t r c \<longrightarrow> cell xPos yPos r c < length (video t))"
proof -
  from assms have m: "unat (index t) + r < length (memory t)"
    and loop: "for_loop 0 8 (draw_pixel (memory t ! (unat (index t) + r)) xPos yPos r) t = Inr t'"
    by (auto simp: draw_row_def load_at_def split: if_splits)
  have "length (video t') = length (video t) \<and> memory t' = memory t \<and> index t' = index t \<and>
        (\<forall>c<8. lit t r c \<longrightarrow> cell xPos yPos r c < length (video t))"
  proof (rule for_loop_partial [OF loop, where
        P = "\<lambda>j u. length (video u) = length (video t) \<and> memory u = memory t \<and>
                 index u = index t \<and>
                 (\<forall>c<j. lit t r c \<longrightarrow> cell xPos yPos r c < length (video t))"])
    fix j u u'
    assume "length (video u) = length (video t) \<and> memory u = memory t \<and> index u = index t \<and>
            (\<forall>c<j. lit t r c \<longrightarrow> cell xPos yPos r c < length (video t))"
      and "draw_pixel (memory t ! (unat (index t) + r)) xPos yPos r j u = Inr u'"
    then show "length (video u') = length (video t) \<and> memory u' = memory t \<and>
               index u' = index t \<and>
               (\<forall>c<Suc j. lit t r c \<longrightarrow> cell xPos yPos r c < length (video t))"
      using draw_pixel_Inr [of "memory t ! (unat (index t) + r)" xPos yPos r j u u']
      by (auto simp: less_Suc_eq lit_def)
  qed simp_all
  with m show ?thesis
    by simp
qed

lemma OP_Dxyn_Inr:
  assumes "OP_Dxyn s = Inr s'"
  shows "in_bounds s"
proof -
  have loop: "for_loop 0 (height_of s) (draw_row (xPos_of s) (yPos_of s))
                (s\<lparr>registers := (registers s)[15 := 0]\<rparr>) = Inr s'"
    using assms by (simp add: OP_Dxyn_def Let_def xPos_of_def yPos_of_def height_of_def)
  have "length (video s') = length (video s) \<and> memory s' = memory s \<and> index s' = index s \<and>
        (\<forall>r<height_of s. unat (index s) + r < length (memory s) \<and>
           (\<forall>c<8. lit s r c \<longrightarrow> cell (xPos_of s) (yPos_of s) r c < length (video s)))"
  proof (rule for_loop_partial [OF loop, where
        P = "\<lambda>j u. length (video u) = length (video s) \<and> memory u = memory s \<and>
                 index u = index s \<and>
                 (\<forall>r<j. unat (index s) + r < length (memory s) \<and>
                    (\<forall>c<8. lit s r c \<longrightarrow>
                       cell (xPos_of s) (yPos_of s) r c < length (video s)))"])
    fix j u u'
    assume inv: "length (video u) = length (video s) \<and> memory u = memory s \<and>
                 index u = index s \<and>
                 (\<forall>r<j. unat (index s) + r < length (memory s) \<and>
                    (\<forall>c<8. lit s r c \<longrightarrow>
                       cell (xPos_of s) (yPos_of s) r c < length (video s)))"
      and step: "draw_row (xPos_of s) (yPos_of s) j u = Inr u'"
    have "lit u j = lit s j"
      using inv by (simp add: lit_def fun_eq_iff)
    then show "length (video u') = length (video s) \<and> memory u' = memory s \<and>
               index u' = index s \<and>
               (\<forall>r<Suc j. unat (index s) + r < length (memory s) \<and>
                  (\<forall>c<8. lit s r c \<longrightarrow>
                     cell (xPos_of s) (yPos_of s) r c < length (video s)))"
      using draw_row_Inr [OF step] inv by (auto simp: less_Suc_eq)
  qed simp_all
  then show ?thesis
    by (simp add: in_bounds_def)
qed

lemma nth_painted_changed:
  assumes "k < length (video s)" and "video (painted s D) ! k \<noteq> video s ! k"
  shows "k \<in> D"
  using assms by (auto simp: nth_toggled split: if_splits)

subsection \<open>Drawing the same sprite twice\<close>

text \<open>
  C5 (as amended). On an all-off display, a draw that returns leaves the flag register 0,
  whatever it held before; a second draw of the same sprite (same memory and index, and
  position registers holding the values of the first draw) returns too and leaves the
  display all-off again; after it the flag register is 1 if one of the \<open>height\<close> sprite
  bytes is not zero, and 0 if the sprite has no row or no bit on.
\<close>

theorem draw_twice_clears:
  assumes "well_sized s" and "video s = replicate (64 * 32) 0" and "OP_Dxyn s = Inr s1"
    and "registers s1 ! Vx_of (opcode s) = registers s ! Vx_of (opcode s)"
    and "registers s1 ! Vy_of (opcode s) = registers s ! Vy_of (opcode s)"
  shows "registers s1 ! 15 = 0 \<and>
         (\<exists>s2. OP_Dxyn s1 = Inr s2 \<and> video s2 = replicate (64 * 32) 0 \<and>
            registers s2 ! 15 =
              (if \<exists>r<height_of s. memory s ! (unat (index s) + r) \<noteq> 0 then 1 else 0))"
proof -
  have ib: "in_bounds s"
    using assms(3) by (rule OP_Dxyn_Inr)
  then have s1: "s1 = painted s (sprite_cells s)"
    using assms(3) by (simp add: OP_Dxyn_painted)
  have regs1: "registers s1 = (registers s)[15 := 0]"
    by (simp add: s1 assms(2) flagged_clear)
  have len: "length (registers s) = 16"
    using assms(1) by (simp add: well_sized_def)
  have x: "xPos_of s1 = xPos_of s" and y: "yPos_of s1 = yPos_of s"
    and h: "height_of s1 = height_of s"
    using assms(4,5) by (simp_all add: xPos_of_def yPos_of_def height_of_def s1)
  have l: "lit s1 = lit s"
    by (simp add: fun_eq_iff lit_def s1)
  then have cells: "sprite_cells s1 = sprite_cells s"
    by (simp add: sprite_cells_def drawn_def x y h)
  have ib1: "in_bounds s1"
    using ib l by (simp add: in_bounds_def x y h) (simp add: s1)
  have s2: "OP_Dxyn s1 = Inr (painted s1 (sprite_cells s))"
    using OP_Dxyn_painted [OF ib1] by (simp add: cells)
  have v2: "video (painted s1 (sprite_cells s)) = replicate (64 * 32) 0"
    by (simp add: s1 toggled_twice assms(2))
  have "registers (painted s1 (sprite_cells s)) ! 15 =
          (if sprite_cells s = {} then ((registers s1)[15 := 0]) ! 15 else 1)"
    using sprite_cells_bound [OF ib] len
    by (simp add: s1 assms(2) flagged_lit flagged_clear)
  then have f2: "registers (painted s1 (sprite_cells s)) ! 15 =
          (if \<exists>r<height_of s. memory s ! (unat (index s) + r) \<noteq> 0 then 1 else 0)"
    using len by (simp add: sprite_cells_empty_iff regs1)
  show ?thesis
    using s2 v2 f2 len by (simp add: regs1)
qed

text \<open>
  The one-row sprite \<open>0xF0\<close> drawn at \<open>(69 mod 64, 35 mod 32) = (5, 3)\<close>: the first draw
  turns four cells on, the second returns the all-off display with the flag at 1.
\<close>

theorem draw_twice_clears_witness:
  "well_sized sprite_machine \<and> video sprite_machine = replicate (64 * 32) 0 \<and>
   OP_Dxyn sprite_machine = Inr sprite_machine_drawn \<and>
   registers sprite_machine_drawn ! 0 = registers sprite_machine ! 0 \<and>
   registers sprite_machine_drawn ! 1 = registers sprite_machine ! 1 \<and>
   registers sprite_machine_drawn ! 15 = 0 \<and>
   (\<exists>s2. OP_Dxyn sprite_machine_drawn = Inr s2 \<and> video s2 = replicate (64 * 32) 0 \<and>
      registers s2 ! 15 = 1)"
proof -
  have w: "well_sized sprite_machine"
    by (simp add: well_sized_def sprite_machine_def blank_def)
  have v: "video sprite_machine = replicate (64 * 32) 0"
    by (simp add: sprite_machine_def blank_def)
  have d: "OP_Dxyn sprite_machine = Inr sprite_machine_drawn"
    by (simp add: OP_Dxyn_def draw_row_def draw_pixel_def load_at_def sprite_machine_drawn_def
        sprite_machine_def blank_def Vx_of_def Vy_of_def VIDEO_WIDTH_def VIDEO_HEIGHT_def
        for_loop.simps Let_def drop_bit_eq_div)
  have x: "registers sprite_machine_drawn ! Vx_of (opcode sprite_machine) =
             registers sprite_machine ! Vx_of (opcode sprite_machine)"
    by (simp add: sprite_machine_drawn_def sprite_machine_def blank_def Vx_of_def)
  have y: "registers sprite_machine_drawn ! Vy_of (opcode sprite_machine) =
             registers sprite_machine ! Vy_of (opcode sprite_machine)"
    by (simp add: sprite_machine_drawn_def sprite_machine_def blank_def Vy_of_def)
  have "\<exists>r<height_of sprite_machine.
          memory sprite_machine ! (unat (index sprite_machine) + r) \<noteq> 0"
    by (simp add: height_of_def sprite_machine_def blank_def)
  then show ?thesis
    using draw_twice_clears [OF w v d x y] w v d
    by (simp add: sprite_machine_drawn_def sprite_machine_def blank_def)
qed

text \<open>
  C5 as stated fails for a sprite without a bit on: instruction \<open>0xD011\<close> on the fresh
  machine draws the one-row sprite \<open>0x00\<close>. Both draws return, and after the second the
  flag register is 0, not 1.
\<close>

theorem draw_twice_blank_sprite_leaves_flag_0:
  "video (blank 0xD011) = replicate (64 * 32) 0 \<and>
   \<not> isl (OP_Dxyn (blank 0xD011)) \<and>
   \<not> isl (OP_Dxyn (projr (OP_Dxyn (blank 0xD011)))) \<and>
   registers (projr (OP_Dxyn (projr (OP_Dxyn (blank 0xD011))))) ! 15 = 0"
  by (simp add: OP_Dxyn_def draw_row_def draw_pixel_def load_at_def blank_def Vx_of_def Vy_of_def
      VIDEO_WIDTH_def VIDEO_HEIGHT_def for_loop.simps Let_def drop_bit_eq_div)

subsection \<open>Accesses to the display\<close>

text \<open>
  C6 (as amended). \<^verbatim>\<open>OP_Dxyn\<close> reduces the origin modulo 64 and 32. From there it
  adds the row and the column of each sprite bit without wrapping or clipping. When the
  sprite fits on the display to the right of and below its origin
  (\<open>xPos + 8 \<le> 64\<close>, \<open>yPos + height \<le> 32\<close>) and its bytes lie in the memory, the
  handler returns without fault: every access is within the 64 by 32 buffer, and only cells
  \<open>(yPos + row) * 64 + (xPos + col)\<close> of the sprite's rectangle change, namely those
  of the sprite bits that are on, which are inverted.
\<close>

theorem draw_within_buffer:
  assumes "well_sized s"
    and "unat (index s) + height_of s \<le> 4096"
    and "xPos_of s + 8 \<le> VIDEO_WIDTH" and "yPos_of s + height_of s \<le> VIDEO_HEIGHT"
  shows "xPos_of s = unat (registers s ! Vx_of (opcode s)) mod 64 \<and>
         yPos_of s = unat (registers s ! Vy_of (opcode s)) mod 32 \<and>
         (\<exists>s'. OP_Dxyn s = Inr s' \<and> length (video s') = 64 * 32 \<and>
            (\<forall>row<height_of s. \<forall>col<8.
               (yPos_of s + row) * 64 + (xPos_of s + col) < 64 * 32 \<and>
               video s' ! ((yPos_of s + row) * 64 + (xPos_of s + col)) =
                 (if lit s row col
                  then video s ! ((yPos_of s + row) * 64 + (xPos_of s + col)) XOR 0xFFFFFFFF
                  else video s ! ((yPos_of s + row) * 64 + (xPos_of s + col)))) \<and>
            (\<forall>k<64 * 32. video s' ! k \<noteq> video s ! k \<longrightarrow>
               (\<exists>row<height_of s. \<exists>col<8.
                  k = (yPos_of s + row) * 64 + (xPos_of s + col) \<and>
                  yPos_of s + row < 32 \<and> xPos_of s + col < 64)))"
proof -
  have lens: "length (memory s) = 4096" "length (video s) = 2048"
    using assms(1) by (simp_all add: well_sized_def)
  have cellb: "cell (xPos_of s) (yPos_of s) r c < 2048" if "r < height_of s" "c < 8" for r c
  proof -
    have "yPos_of s + r \<le> 31" "xPos_of s + c \<le> 63"
      using that assms(3,4) by (simp_all add: VIDEO_WIDTH_def VIDEO_HEIGHT_def)
    then have "(yPos_of s + r) * 64 + (xPos_of s + c) \<le> 31 * 64 + 63"
      by (intro add_mono mult_le_mono1)
    then show ?thesis
      by (simp add: cell_def VIDEO_WIDTH_def)
  qed
  have ib: "in_bounds s"
    using assms(2) cellb by (simp add: in_bounds_def lens)
  have inside: "k \<in> sprite_cells s \<Longrightarrow>
          \<exists>row<height_of s. \<exists>col<8.
             k = (yPos_of s + row) * 64 + (xPos_of s + col) \<and>
             yPos_of s + row < 32 \<and> xPos_of s + col < 64" for k
    using assms(3,4)
    by (fastforce simp: sprite_cells_def drawn_def cell_def VIDEO_WIDTH_def VIDEO_HEIGHT_def)
  have each: "(yPos_of s + row) * 64 + (xPos_of s + col) < 64 * 32 \<and>
        video (painted s (sprite_cells s)) ! ((yPos_of s + row) * 64 + (xPos_of s + col)) =
          (if lit s row col
           then video s ! ((yPos_of s + row) * 64 + (xPos_of s + col)) XOR 0xFFFFFFFF
           else video s ! ((yPos_of s + row) * 64 + (xPos_of s + col)))"
    if "row < height_of s" "col < 8" for row col
  proof -
    have "cell (xPos_of s) (yPos_of s) row col \<in> sprite_cells s \<longleftrightarrow> lit s row col"
      using that by (rule cell_in_sprite_cells)
    then show ?thesis
      using cellb [OF that] by (simp add: nth_toggled lens cell_def VIDEO_WIDTH_def)
  qed
  have changed: "\<exists>row<height_of s. \<exists>col<8.
             k = (yPos_of s + row) * 64 + (xPos_of s + col) \<and>
             yPos_of s + row < 32 \<and> xPos_of s + col < 64"
    if "k < 64 * 32" "video (painted s (sprite_cells s)) ! k \<noteq> video s ! k" for k
    using that nth_painted_changed [of k s "sprite_cells s"] inside [of k] by (simp add: lens)
  have "OP_Dxyn s = Inr (painted s (sprite_cells s))"
    using ib by (rule OP_Dxyn_painted)
  moreover have "length (video (painted s (sprite_cells s))) = 64 * 32"
    by (simp add: lens)
  ultimately have "\<exists>s'. OP_Dxyn s = Inr s' \<and> length (video s') = 64 * 32 \<and>
            (\<forall>row<height_of s. \<forall>col<8.
               (yPos_of s + row) * 64 + (xPos_of s + col) < 64 * 32 \<and>
               video s' ! ((yPos_of s + row) * 64 + (xPos_of s + col)) =
                 (if lit s row col
                  then video s ! ((yPos_of s + row) * 64 + (xPos_of s + col)) XOR 0xFFFFFFFF
                  else video s ! ((yPos_of s + row) * 64 + (xPos_of s + col)))) \<and>
            (\<forall>k<64 * 32. video s' ! k \<noteq> video s ! k \<longrightarrow>
               (\<exists>row<height_of s. \<exists>col<8.
                  k = (yPos_of s + row) * 64 + (xPos_of s + col) \<and>
                  yPos_of s + row < 32 \<and> xPos_of s + col < 64))"
    using each changed by blast
  then show ?thesis
    by (simp add: xPos_of_def yPos_of_def VIDEO_WIDTH_def VIDEO_HEIGHT_def)
qed

text \<open>
  The one-row sprite of \<open>sprite_machine\<close>: registers 69 and 35 give the origin
  \<open>(5, 3)\<close>, the sprite fits, and the draw returns.
\<close>

theorem draw_within_buffer_witness:
  "well_sized sprite_machine \<and>
   unat (index sprite_machine) + height_of sprite_machine \<le> 4096 \<and>
   xPos_of sprite_machine + 8 \<le> VIDEO_WIDTH \<and>
   yPos_of sprite_machine + height_of sprite_machine \<le> VIDEO_HEIGHT \<and>
   xPos_of sprite_machine = 5 \<and> yPos_of sprite_machine = 3 \<and>
   (\<exists>s'. OP_Dxyn sprite_machine = Inr s' \<and> length (video s') = 64 * 32)"
proof -
  have w: "well_sized sprite_machine"
    by (simp add: well_sized_def sprite_machine_def blank_def)
  have m: "unat (index sprite_machine) + height_of sprite_machine \<le> 4096"
    by (simp add: height_of_def sprite_machine_def blank_def)
  have x: "xPos_of sprite_machine + 8 \<le> VIDEO_WIDTH"
    by (simp add: xPos_of_def VIDEO_WIDTH_def sprite_machine_def blank_def Vx_of_def)
  have y: "yPos_of sprite_machine + height_of sprite_machine \<le> VIDEO_HEIGHT"
    by (simp add: yPos_of_def height_of_def VIDEO_HEIGHT_def sprite_machine_def blank_def
        Vy_of_def)
  have "xPos_of sprite_machine = 5" "yPos_of sprite_machine = 3"
    by (simp_all add: xPos_of_def yPos_of_def VIDEO_WIDTH_def VIDEO_HEIGHT_def
        sprite_machine_def blank_def Vx_of_def Vy_of_def)
  then show ?thesis
    using draw_within_buffer [OF w m x y] w m x y by auto
qed

text \<open>
  C6 as stated fails. Instruction \<open>0xD012\<close> with \<open>V1 = 31\<close>, \<open>index = 0x300\<close> and the
  sprite bytes \<open>0x80, 0x80\<close>: the second row is row 32, and the handler accesses cell
  \<open>32 * 64 = 2048\<close>, one past the end of the buffer, with no wrap and no clip. Instruction
  \<open>0xD011\<close> with \<open>V0 = 63\<close> and the sprite byte \<open>0xC0\<close>: the second bit is column 64,
  and the handler turns on cell 64, which is column 0 of the next row.
\<close>

theorem draw_leaves_buffer_at_row_32:
  "OP_Dxyn ((blank 0xD012)\<lparr>registers := (replicate 16 0)[1 := 31], index := 0x300,
                            memory := (replicate 4096 0)[0x300 := 0x80, 0x301 := 0x80]\<rparr>)
     = Inl (OutOfBounds Video 2048) \<and>
   OP_Dxyn ((blank 0xD011)\<lparr>registers := (replicate 16 0)[0 := 63], index := 0x300,
                            memory := (replicate 4096 0)[0x300 := 0xC0]\<rparr>)
     = Inr ((blank 0xD011)\<lparr>registers := (replicate 16 0)[0 := 63, 15 := 0], index := 0x300,
                             memory := (replicate 4096 0)[0x300 := 0xC0],
                             video := (replicate (64 * 32) 0)
                               [63 := 0xFFFFFFFF, 64 := 0xFFFFFFFF]\<rparr>)"
  by (simp add: OP_Dxyn_def draw_row_def draw_pixel_def load_at_def blank_def Vx_of_def Vy_of_def
      VIDEO_WIDTH_def VIDEO_HEIGHT_def for_loop.simps Let_def drop_bit_eq_div)

end
